theory Spec2Isabelle
  imports Main
begin

section \<open>Python strings\<close>

text \<open>
  A Python \<open>str\<close> is modelled as a HOL \<open>string\<close>; a character stands for the code point
  of the same number, so the model covers texts whose code points are below 256. The
  library methods the server calls are written out for that range.
\<close>

definition isspace :: "char \<Rightarrow> bool" where
  \<comment> \<open>\<open>str.isspace\<close>: the code points below 256 that \<open>strip()\<close> removes.\<close>
  "isspace c = (let n = (of_char c :: nat) in
     (9 \<le> n \<and> n \<le> 13) \<or> (28 \<le> n \<and> n \<le> 32) \<or> n = 133 \<or> n = 160)"

definition strip :: "string \<Rightarrow> string" where
  \<comment> \<open>\<open>s.strip()\<close>\<close>
  "strip s = rev (dropWhile isspace (rev (dropWhile isspace s)))"

definition lower_char :: "char \<Rightarrow> char" where
  \<comment> \<open>\<open>c.lower()\<close> for one code point below 256: A-Z and the Latin-1 capitals move up by 32.\<close>
  "lower_char c = (let n = (of_char c :: nat) in
     if (65 \<le> n \<and> n \<le> 90) \<or> (192 \<le> n \<and> n \<le> 222 \<and> n \<noteq> 215)
     then char_of (n + 32) else c)"

definition lower :: "string \<Rightarrow> string" where
  \<comment> \<open>\<open>s.lower()\<close>\<close>
  "lower s = map lower_char s"

definition startswith :: "string \<Rightarrow> string \<Rightarrow> bool" where
  \<comment> \<open>\<open>s.startswith(p)\<close>\<close>
  "startswith s p = (take (length p) s = p)"

fun contains :: "string \<Rightarrow> string \<Rightarrow> bool" where
  \<comment> \<open>\<open>p in s\<close> for two strings: \<open>p\<close> occurs in \<open>s\<close> as a contiguous piece.\<close>
  "contains p [] = (p = [])"
| "contains p (x # xs) = (startswith (x # xs) p \<or> contains p xs)"

function replace :: "string \<Rightarrow> string \<Rightarrow> string \<Rightarrow> string" where
  \<comment> \<open>\<open>s.replace(old, new)\<close>: the occurrences of \<open>old\<close>, left to right, without overlap.\<close>
  "replace old new s =
     (if old = [] then new @ concat (map (\<lambda>c. c # new) s)
      else if s = [] then []
      else if startswith s old then new @ replace old new (drop (length old) s)
      else hd s # replace old new (tl s))"
  by pat_completeness auto
termination
  by (relation "measure (\<lambda>(old, new, s). length s)") auto

declare replace.simps [simp del]

fun split_on :: "char \<Rightarrow> string \<Rightarrow> string list" where
  \<comment> \<open>\<open>s.split(c)\<close> for a one-character separator.\<close>
  "split_on c [] = ['''']"
| "split_on c (x # xs) =
     (if x = c then [] # split_on c xs
      else (case split_on c xs of
              [] \<Rightarrow> [x # '''']
            | y # ys \<Rightarrow> (x # y) # ys))"

definition split_once :: "char \<Rightarrow> string \<Rightarrow> string \<times> string" where
  \<comment> \<open>\<open>s.split(c, 1)\<close> on a string that contains \<open>c\<close>: the two pieces around the first \<open>c\<close>.\<close>
  "split_once c s = (takeWhile (\<lambda>x. x \<noteq> c) s, drop 1 (dropWhile (\<lambda>x. x \<noteq> c) s))"

section \<open>Domain cleanup\<close>

definition clean_domain :: "string \<Rightarrow> string" where
  \<comment> \<open>The first lines of \<open>whois_domain\<close>: trim, lower-case, drop the protocol, the path, the port.\<close>
  "clean_domain domain =
     (let domain = lower (strip domain);
          domain = replace ''https://'' '''' (replace ''http://'' '''' domain);
          domain = hd (split_on CHR ''/'' domain);
          domain = hd (split_on CHR '':'' domain)
      in domain)"

section \<open>Dictionaries and results\<close>

text \<open>
  A Python \<open>dict\<close> is an association list in insertion order: setting a key that is
  present replaces its value in place, setting a new key appends it.
\<close>

fun dict_set :: "'k \<Rightarrow> 'v \<Rightarrow> ('k \<times> 'v) list \<Rightarrow> ('k \<times> 'v) list" where
  \<comment> \<open>\<open>d[k] = v\<close>\<close>
  "dict_set k v [] = [(k, v)]"
| "dict_set k v ((k', v') # d) =
     (if k' = k then (k, v) # d else (k', v') # dict_set k v d)"

definition dict_get :: "('k \<times> 'v) list \<Rightarrow> 'k \<Rightarrow> 'v option" where
  \<comment> \<open>\<open>d.get(k)\<close>, \<open>None\<close> when the key is missing\<close>
  "dict_get d k = map_of d k"

definition dict_has :: "'k \<Rightarrow> ('k \<times> 'v) list \<Rightarrow> bool" where
  \<comment> \<open>\<open>k in d\<close>\<close>
  "dict_has k d = (map_of d k \<noteq> None)"

datatype field_value = Single string | Many "string list"

type_synonym fields = "(string \<times> field_value) list"

datatype pyval =
    PStr string
  | PBool bool
  | PFields fields
  | PAnalysis "(string \<times> bool) list"

type_synonym query_result = "(string \<times> pyval) list"

fun py_truthy :: "pyval \<Rightarrow> bool" where
  \<comment> \<open>the truth value Python gives a value in a condition\<close>
  "py_truthy (PStr s) = (s \<noteq> [])"
| "py_truthy (PBool b) = b"
| "py_truthy (PFields f) = (f \<noteq> [])"
| "py_truthy (PAnalysis a) = (a \<noteq> [])"

section \<open>Formatting integers\<close>

fun str_nat :: "nat \<Rightarrow> string" where
  "str_nat n = (if n < 10 then [char_of (48 + n)]
                else str_nat (n div 10) @ [char_of (48 + n mod 10)])"

declare str_nat.simps [simp del]

definition str_int :: "int \<Rightarrow> string" where
  \<comment> \<open>an integer inside an f-string\<close>
  "str_int i = (if i < 0 then CHR ''-'' # str_nat (nat (- i)) else str_nat (nat i))"

section \<open>Running one query: \<open>run_whois_command\<close>\<close>

text \<open>
  What the resolver process did is the input of the model: an exception raised inside
  the \<open>try\<close> block (with its text), the wait running out of time, or the process ending
  with a return code and its two streams, already decoded (decoding with
  \<open>errors='ignore'\<close> never fails).
\<close>

datatype proc_outcome =
    Raised string
  | TimedOut
  | Exited int string string

definition field_of_line :: "string \<Rightarrow> (string \<times> string) option" where
  \<comment> \<open>the key and value one line of the output gives, when it gives any\<close>
  "field_of_line raw_line =
     (let line = strip raw_line in
      if contains '':'' line \<and> \<not> startswith line ''%'' \<and> \<not> startswith line ''#''
      then (let (key, val) = split_once CHR '':'' line;
                key = replace '' '' ''_'' (lower (strip key));
                val = strip val
            in if val \<noteq> [] \<and> key \<noteq> [] then Some (key, val) else None)
      else None)"

definition add_field :: "fields \<Rightarrow> string \<Rightarrow> string \<Rightarrow> fields" where
  \<comment> \<open>storing a value: first a plain string, then a list that grows\<close>
  "add_field parsed_fields key val =
     (case dict_get parsed_fields key of
        Some (Many vs) \<Rightarrow> dict_set key (Many (vs @ [val])) parsed_fields
      | Some (Single v) \<Rightarrow> dict_set key (Many [v, val]) parsed_fields
      | None \<Rightarrow> dict_set key (Single val) parsed_fields)"

definition parse_line :: "fields \<Rightarrow> string \<Rightarrow> fields" where
  \<comment> \<open>the body of the loop over the lines\<close>
  "parse_line parsed_fields raw_line =
     (case field_of_line raw_line of
        None \<Rightarrow> parsed_fields
      | Some (key, val) \<Rightarrow> add_field parsed_fields key val)"

definition parse_fields :: "string \<Rightarrow> fields" where
  "parse_fields raw_output = foldl parse_line [] (split_on (CHR 0x0A) raw_output)"

definition run_whois_command :: "string \<Rightarrow> int \<Rightarrow> proc_outcome \<Rightarrow> string \<Rightarrow> query_result" where
  "run_whois_command query timeout outcome now =
     (case outcome of
        Raised e \<Rightarrow>
          [(''error'', PStr (''Internal error: '' @ e)),
           (''query'', PStr query),
           (''timestamp'', PStr now)]
      | TimedOut \<Rightarrow>
          [(''error'', PStr (''WHOIS query timed out after '' @ str_int timeout @ '' seconds'')),
           (''query'', PStr query),
           (''timestamp'', PStr now)]
      | Exited returncode stdout stderr \<Rightarrow>
          if returncode \<noteq> 0 then
            (let error_msg = strip stderr in
             [(''error'', PStr (''WHOIS command failed: '' @
                 (if error_msg \<noteq> [] then error_msg else ''Unknown error''))),
              (''query'', PStr query),
              (''timestamp'', PStr now)])
          else
            (let raw_output = stdout in
             [(''query'', PStr query),
              (''raw_output'', PStr raw_output),
              (''timestamp'', PStr now),
              (''parsed_fields'', PFields (parse_fields raw_output))]))"

section \<open>One domain: \<open>whois_domain\<close>\<close>

definition status_phrases :: "string list" where
  "status_phrases =
     [''no match'', ''not found'', ''no data found'', ''status: available'',
      ''no matching record'', ''not registered'']"

definition truthy :: "field_value option \<Rightarrow> bool" where
  \<comment> \<open>\<open>bool(x)\<close> for what \<open>parsed_fields.get\<close> returns\<close>
  "truthy x = (case x of
       None \<Rightarrow> False
     | Some (Single s) \<Rightarrow> s \<noteq> []
     | Some (Many vs) \<Rightarrow> vs \<noteq> [])"

definition py_or :: "field_value option \<Rightarrow> field_value option \<Rightarrow> field_value option" where
  \<comment> \<open>\<open>a or b\<close>\<close>
  "py_or a b = (if truthy a then a else b)"

definition whois_domain :: "string \<Rightarrow> proc_outcome \<Rightarrow> string \<Rightarrow> query_result" where
  "whois_domain domain outcome now =
     (let domain = clean_domain domain;
          result = run_whois_command domain 10 outcome now
      in if \<not> dict_has ''error'' result then
           (let raw_output = lower (case dict_get result ''raw_output'' of
                                      Some (PStr s) \<Rightarrow> s | _ \<Rightarrow> []);
                parsed_fields = (case dict_get result ''parsed_fields'' of
                                   Some (PFields f) \<Rightarrow> f | _ \<Rightarrow> []);
                is_registered =
                  (\<not> list_ex (\<lambda>phrase. contains phrase raw_output) status_phrases);
                result = dict_set ''is_registered'' (PBool is_registered) result;
                result = dict_set ''analysis'' (PAnalysis
                  [(''registered'', is_registered),
                   (''has_registrar'', truthy (dict_get parsed_fields ''registrar'')),
                   (''has_creation_date'',
                      truthy (py_or (dict_get parsed_fields ''creation_date'')
                                    (dict_get parsed_fields ''created''))),
                   (''has_expiry_date'',
                      truthy (py_or (dict_get parsed_fields ''expiry_date'')
                                    (dict_get parsed_fields ''expires'')))]) result
            in result)
         else result)"

section \<open>Many domains: \<open>whois_domains\<close>\<close>

text \<open>
  What happens to the task of one position of the list: it raises an exception, or it
  runs the lookup, with the resolver's outcome and the clock reading of that run.
\<close>

datatype task_env = Crashes string | Runs proc_outcome string

definition lookup_single :: "string \<Rightarrow> task_env \<Rightarrow> string + (string \<times> query_result)" where
  "lookup_single domain env =
     (case env of
        Crashes e \<Rightarrow> Inl e
      | Runs outcome now \<Rightarrow> Inr (domain, whois_domain domain outcome now))"

record summary =
  total_domains :: int
  registered_domains :: int
  available_domains :: int
  errors :: int
  timestamp :: string

record bulk_result =
  results :: "(string \<times> query_result) list"
  summary :: summary

definition is_registered_set :: "query_result \<Rightarrow> bool" where
  \<comment> \<open>the condition \<open>whois_result.get("is_registered", False)\<close>\<close>
  "is_registered_set whois_result =
     (case dict_get whois_result ''is_registered'' of
        None \<Rightarrow> False
      | Some v \<Rightarrow> py_truthy v)"

definition tally ::
  "(string \<times> query_result) list \<times> int \<times> int \<Rightarrow> string + (string \<times> query_result) \<Rightarrow>
   (string \<times> query_result) list \<times> int \<times> int" where
  \<comment> \<open>the body of the loop over the gathered results\<close>
  "tally st result =
     (case st of (domain_results, registered_count, error_count) \<Rightarrow>
        (case result of
           Inl e \<Rightarrow> (domain_results, registered_count, error_count + 1)
         | Inr (domain, whois_result) \<Rightarrow>
             (dict_set domain whois_result domain_results,
              (if is_registered_set whois_result then registered_count + 1
               else registered_count),
              (if dict_has ''error'' whois_result then error_count + 1
               else error_count))))"

definition gathered :: "string list \<Rightarrow> (nat \<Rightarrow> task_env) \<Rightarrow> (string + (string \<times> query_result)) list" where
  \<comment> \<open>one task per position, in the order of the list\<close>
  "gathered domains world =
     map (\<lambda>(i, domain). lookup_single domain (world i)) (enumerate 0 domains)"

definition whois_domains :: "string list \<Rightarrow> (nat \<Rightarrow> task_env) \<Rightarrow> string \<Rightarrow> bulk_result" where
  "whois_domains domains world now =
     (case foldl tally ([], 0, 0) (gathered domains world) of
        (domain_results, registered_count, error_count) \<Rightarrow>
          \<lparr> results = domain_results,
            summary = \<lparr> total_domains = int (length domains),
                        registered_domains = registered_count,
                        available_domains = int (length domains) - registered_count - error_count,
                        errors = error_count,
                        timestamp = now \<rparr> \<rparr>)"

definition collected :: "string list \<Rightarrow> (nat \<Rightarrow> task_env) \<Rightarrow> (string \<times> query_result) list" where
  \<comment> \<open>the \<open>domain_results\<close> the loop of \<open>whois_domains\<close> ends with\<close>
  "collected domains world = fst (foldl tally ([], 0, 0) (gathered domains world))"

section \<open>Vocabulary for the parsed fields\<close>

fun nonempty_value :: "field_value \<Rightarrow> bool" where
  \<comment> \<open>a stored value is not empty: a non-empty string, or a non-empty list of such\<close>
  "nonempty_value (Single s) = (s \<noteq> [])"
| "nonempty_value (Many vs) = (vs \<noteq> [] \<and> list_all (\<lambda>s. s \<noteq> []) vs)"

definition good_fields :: "fields \<Rightarrow> bool" where
  "good_fields fs =
     list_all (\<lambda>(k, v). lower k = k \<and> CHR '' '' \<notin> set k \<and> k \<noteq> [] \<and> nonempty_value v) fs"

definition entries :: "string \<Rightarrow> (string \<times> string) list" where
  \<comment> \<open>the key and value of every line that gives one, in the order of the text\<close>
  "entries raw_output = List.map_filter field_of_line (split_on (CHR 0x0A) raw_output)"

definition values_of :: "string \<Rightarrow> string \<Rightarrow> string list" where
  \<comment> \<open>the values the text gives for one key, in the order of the text\<close>
  "values_of key raw_output = map snd (filter (\<lambda>e. fst e = key) (entries raw_output))"

fun stored :: "field_value option \<Rightarrow> string list \<Rightarrow> field_value option" where
  \<comment> \<open>what a key holds after more values arrive for it\<close>
  "stored x [] = x"
| "stored None (v # vs) = stored (Some (Single v)) vs"
| "stored (Some (Single u)) (v # vs) = stored (Some (Many [u, v])) vs"
| "stored (Some (Many us)) (v # vs) = stored (Some (Many (us @ [v]))) vs"

section \<open>Facts about the string functions\<close>

lemma split_on_not_Nil: "split_on c s \<noteq> []"
  by (induction s) (auto split: list.splits)

lemma hd_split_on: "hd (split_on c s) = takeWhile (\<lambda>x. x \<noteq> c) s"
  by (induction s) (auto split: list.splits simp: split_on_not_Nil)

lemma replace_empty_old: "replace [] new s = new @ concat (map (\<lambda>c. c # new) s)"
  by (subst replace.simps) simp

lemma replace_Nil: "old \<noteq> [] \<Longrightarrow> replace old new [] = []"
  by (subst replace.simps) simp

lemma replace_hit:
  "old \<noteq> [] \<Longrightarrow> s \<noteq> [] \<Longrightarrow> startswith s old \<Longrightarrow>
   replace old new s = new @ replace old new (drop (length old) s)"
  by (subst replace.simps) simp

lemma replace_miss:
  "old \<noteq> [] \<Longrightarrow> \<not> startswith (x # xs) old \<Longrightarrow>
   replace old new (x # xs) = x # replace old new xs"
  by (subst replace.simps) simp

lemma set_replace_empty: "set (replace old [] s) \<subseteq> set s"
proof (induction old "[] :: string" s rule: replace.induct)
  case (1 old s)
  show ?case
  proof (cases "old = []")
    case True
    then show ?thesis by (auto simp: replace_empty_old)
  next
    case ne: False
    show ?thesis
    proof (cases s)
      case Nil
      then show ?thesis using ne by (simp add: replace_Nil)
    next
      case (Cons x xs)
      then have sne: "s \<noteq> []" by simp
      show ?thesis
      proof (cases "startswith s old")
        case True
        have "set (replace old [] (drop (length old) s)) \<subseteq> set (drop (length old) s)"
          using 1(1)[OF ne sne True] .
        moreover have "set (drop (length old) s) \<subseteq> set s"
          by (rule set_drop_subset)
        ultimately show ?thesis
          using replace_hit[OF ne sne True, of "[]"] by auto
      next
        case False
        have "set (replace old [] (tl s)) \<subseteq> set (tl s)"
          using 1(2)[OF ne sne False] .
        then show ?thesis
          using replace_miss[OF ne, of x xs "[]"] False Cons by auto
      qed
    qed
  qed
qed

lemma lower_char_idem: "lower_char (lower_char c) = lower_char c"
  by (auto simp: lower_char_def Let_def)

lemma lower_char_fixed_image: "x \<in> set (lower s) \<Longrightarrow> lower_char x = x"
  by (auto simp: lower_def lower_char_idem)

lemma lower_fixed: "(\<And>x. x \<in> set s \<Longrightarrow> lower_char x = x) \<Longrightarrow> lower s = s"
  by (induction s) (auto simp: lower_def)

lemma set_strip: "set (strip s) \<subseteq> set s"
proof -
  have "set (strip s) \<subseteq> set (rev (dropWhile isspace s))"
    unfolding strip_def using set_dropWhileD by fastforce
  also have "\<dots> \<subseteq> set s" using set_dropWhileD by fastforce
  finally show ?thesis .
qed

lemma startswith_set: "startswith s old \<Longrightarrow> set old \<subseteq> set s"
  unfolding startswith_def by (metis set_take_subset)

lemma replace_absent: "x \<in> set old \<Longrightarrow> x \<notin> set s \<Longrightarrow> replace old new s = s"
proof (induction s)
  case Nil
  then have "old \<noteq> []" by auto
  then show ?case by (simp add: replace_Nil)
next
  case (Cons y ys)
  have ne: "old \<noteq> []" using Cons.prems by auto
  have "\<not> startswith (y # ys) old"
    using startswith_set[of "y # ys" old] Cons.prems by auto
  then show ?case using replace_miss[OF ne] Cons by auto
qed

lemma takeWhile_absent: "c \<notin> set s \<Longrightarrow> takeWhile (\<lambda>x. x \<noteq> c) s = s"
  by (induction s) auto

section \<open>Cleanup applied twice\<close>

lemma clean_domain_unfold:
  "clean_domain d = takeWhile (\<lambda>x. x \<noteq> CHR '':'') (takeWhile (\<lambda>x. x \<noteq> CHR ''/'')
     (replace ''https://'' '''' (replace ''http://'' '''' (lower (strip d)))))"
  by (simp add: clean_domain_def Let_def hd_split_on)

lemma clean_domain_chars:
  "set (clean_domain d) \<subseteq> set (lower (strip d)) - {CHR ''/'', CHR '':''}"
proof
  fix x assume x: "x \<in> set (clean_domain d)"
  let ?r = "replace ''https://'' '''' (replace ''http://'' '''' (lower (strip d)))"
  let ?t = "takeWhile (\<lambda>x. x \<noteq> CHR ''/'') ?r"
  from x have x1: "x \<in> set (takeWhile (\<lambda>x. x \<noteq> CHR '':'') ?t)"
    by (simp add: clean_domain_unfold)
  then have "x \<noteq> CHR '':''" and x2: "x \<in> set ?t"
    by (auto dest: set_takeWhileD)
  from x2 have "x \<noteq> CHR ''/''" and x3: "x \<in> set ?r"
    by (auto dest: set_takeWhileD)
  from x3 have "x \<in> set (lower (strip d))"
    using set_replace_empty by blast
  with \<open>x \<noteq> CHR '':''\<close> \<open>x \<noteq> CHR ''/''\<close>
  show "x \<in> set (lower (strip d)) - {CHR ''/'', CHR '':''}" by simp
qed

lemma dropWhile_fixed: "xs = [] \<or> \<not> P (hd xs) \<Longrightarrow> dropWhile P xs = xs"
  by (cases xs) auto

lemma dropWhile_head: "dropWhile P xs = [] \<or> \<not> P (hd (dropWhile P xs))"
  using hd_dropWhile[of P xs] by blast

lemma rstrip_keeps_head:
  assumes "t = [] \<or> \<not> P (hd t)"
  shows "rev (dropWhile P (rev t)) = [] \<or> \<not> P (hd (rev (dropWhile P (rev t))))"
proof (cases t)
  case Nil
  then show ?thesis by simp
next
  case (Cons x xs)
  then have "\<not> P x" using assms by simp
  then have "dropWhile P (rev t) = dropWhile P (rev xs) @ [x]"
    using Cons by (simp add: dropWhile_append3)
  then show ?thesis using \<open>\<not> P x\<close> by simp
qed

lemma strip_idem: "strip (strip s) = strip s"
proof -
  let ?t = "dropWhile isspace s"
  let ?w = "dropWhile isspace (rev ?t)"
  have u: "strip s = rev ?w" by (simp add: strip_def)
  have "rev ?w = [] \<or> \<not> isspace (hd (rev ?w))"
    by (rule rstrip_keeps_head) (rule dropWhile_head)
  then have a: "dropWhile isspace (rev ?w) = rev ?w" by (rule dropWhile_fixed)
  have b: "dropWhile isspace ?w = ?w" by (rule dropWhile_fixed) (rule dropWhile_head)
  show ?thesis unfolding u by (simp add: strip_def[of "rev ?w"] a b)
qed

lemma clean_domain_again: "clean_domain (clean_domain d) = strip (clean_domain d)"
proof -
  let ?c = "clean_domain d"
  let ?s = "strip ?c"
  have sub: "set ?s \<subseteq> set (lower (strip d)) - {CHR ''/'', CHR '':''}"
    using set_strip[of ?c] clean_domain_chars[of d] by blast
  have low: "lower ?s = ?s"
    by (rule lower_fixed) (use sub lower_char_fixed_image in blast)
  have slash: "CHR ''/'' \<notin> set ?s" and colon: "CHR '':'' \<notin> set ?s"
    using sub by auto
  have r1: "replace ''http://'' '''' ?s = ?s"
    by (rule replace_absent[of "CHR ''/''"]) (use slash in auto)
  have r2: "replace ''https://'' '''' ?s = ?s"
    by (rule replace_absent[of "CHR ''/''"]) (use slash in auto)
  show ?thesis
    unfolding clean_domain_unfold[of ?c]
    by (simp add: low r1 r2 takeWhile_absent slash colon)
qed

text \<open>
  C8, as the code has it: cleaning a cleaned domain trims it once more and changes
  nothing else, so \<open>clean(clean(d)) = clean(d).strip()\<close> for every string \<open>d\<close>, and
  a third cleaning changes nothing. The path and the port are cut after the trimming,
  and the cut can leave white space at the end of the cleaned string.
\<close>

theorem clean_domain_twice:
  "clean_domain (clean_domain d) = strip (clean_domain d)
   \<and> clean_domain (clean_domain (clean_domain d)) = clean_domain (clean_domain d)"
proof
  show "clean_domain (clean_domain d) = strip (clean_domain d)"
    by (rule clean_domain_again)
  have "clean_domain (clean_domain (clean_domain d)) = strip (clean_domain (clean_domain d))"
    by (rule clean_domain_again)
  also have "\<dots> = strip (strip (clean_domain d))"
    by (simp only: clean_domain_again[of d])
  also have "\<dots> = strip (clean_domain d)"
    by (rule strip_idem)
  also have "\<dots> = clean_domain (clean_domain d)"
    by (rule clean_domain_again[symmetric])
  finally show "clean_domain (clean_domain (clean_domain d)) = clean_domain (clean_domain d)" .
qed

text \<open>
  C8, as the claim states it, fails: the domain \<open>a /b\<close> is cleaned to \<open>a\<close> followed by a
  space, and cleaning that gives \<open>a\<close>.
\<close>

theorem clean_domain_not_idempotent:
  "clean_domain ''a /b'' = ''a '' \<and> clean_domain (clean_domain ''a /b'') = ''a''
   \<and> clean_domain (clean_domain ''a /b'') \<noteq> clean_domain ''a /b''"
  by (simp add: clean_domain_unfold strip_def isspace_def lower_def lower_char_def
      replace.simps startswith_def)

section \<open>The summary of a bulk lookup\<close>

text \<open>
  C1: for every list of domains, whatever happens to each task, the three counts of the
  summary add up to \<open>total_domains\<close>, and \<open>total_domains\<close> is the length of the list.
\<close>

theorem bulk_summary_adds_up:
  "registered_domains (summary (whois_domains domains world now))
   + available_domains (summary (whois_domains domains world now))
   + errors (summary (whois_domains domains world now))
   = total_domains (summary (whois_domains domains world now))
   \<and> total_domains (summary (whois_domains domains world now)) = int (length domains)"
  by (simp add: whois_domains_def split: prod.splits)

section \<open>A resolver that exits with a non-zero status\<close>

text \<open>
  C9: when the return code is not zero the result is the failure shape, and its message
  is \<open>WHOIS command failed:\<close> followed by the trimmed error stream, or by
  \<open>Unknown error\<close> when the trimmed error stream is empty.
\<close>

theorem nonzero_exit_error:
  "returncode \<noteq> 0 \<Longrightarrow>
   run_whois_command query timeout (Exited returncode stdout stderr) now =
     [(''error'', PStr (''WHOIS command failed: '' @
         (if strip stderr = [] then ''Unknown error'' else strip stderr))),
      (''query'', PStr query), (''timestamp'', PStr now)]"
  by (simp add: run_whois_command_def Let_def)

theorem nonzero_exit_error_witness:
  "(1::int) \<noteq> 0 \<and>
   run_whois_command ''example.com'' 10 (Exited 1 ''ignored'' '' connect: refused  '') ''T'' =
     [(''error'', PStr ''WHOIS command failed: connect: refused''),
      (''query'', PStr ''example.com''), (''timestamp'', PStr ''T'')]"
  using nonzero_exit_error[of 1 "''example.com''" 10 "''ignored''" "'' connect: refused  ''" "''T''"]
  by (simp add: strip_def isspace_def)

section \<open>Facts about dictionaries and the two lookup functions\<close>

lemma map_of_dict_set: "map_of (dict_set k v d) = (map_of d)(k \<mapsto> v)"
  by (induction d) (auto simp: fun_eq_iff)

lemma dict_get_dict_set: "dict_get (dict_set k v d) k' = (if k' = k then Some v else dict_get d k')"
  by (simp add: dict_get_def map_of_dict_set)

lemma run_ok:
  "run_whois_command query timeout (Exited 0 stdout stderr) now =
     [(''query'', PStr query), (''raw_output'', PStr stdout), (''timestamp'', PStr now),
      (''parsed_fields'', PFields (parse_fields stdout))]"
  by (simp add: run_whois_command_def)

lemma run_has_error:
  "dict_has ''error'' (run_whois_command query timeout outcome now) =
     (case outcome of Exited returncode stdout stderr \<Rightarrow> returncode \<noteq> 0 | _ \<Rightarrow> True)"
  by (cases outcome) (simp_all add: run_whois_command_def dict_has_def Let_def)

lemma whois_domain_failed:
  "dict_has ''error'' (run_whois_command (clean_domain domain) 10 outcome now) \<Longrightarrow>
   whois_domain domain outcome now = run_whois_command (clean_domain domain) 10 outcome now"
  by (simp add: whois_domain_def Let_def)

lemma whois_domain_ok:
  "whois_domain domain (Exited 0 stdout stderr) now =
     [(''query'', PStr (clean_domain domain)), (''raw_output'', PStr stdout),
      (''timestamp'', PStr now), (''parsed_fields'', PFields (parse_fields stdout)),
      (''is_registered'',
         PBool (\<not> list_ex (\<lambda>phrase. contains phrase (lower stdout)) status_phrases)),
      (''analysis'', PAnalysis
         [(''registered'', \<not> list_ex (\<lambda>phrase. contains phrase (lower stdout)) status_phrases),
          (''has_registrar'', truthy (dict_get (parse_fields stdout) ''registrar'')),
          (''has_creation_date'',
             truthy (py_or (dict_get (parse_fields stdout) ''creation_date'')
                           (dict_get (parse_fields stdout) ''created''))),
          (''has_expiry_date'',
             truthy (py_or (dict_get (parse_fields stdout) ''expiry_date'')
                           (dict_get (parse_fields stdout) ''expires'')))])]"
  by (simp add: whois_domain_def run_ok dict_has_def dict_get_def Let_def)

section \<open>The two shapes of a result\<close>

text \<open>
  C2: whatever the resolver did (an exception, a timeout, a non-zero return code or a
  clean exit), the result of one query has an \<open>error\<close> key exactly when it has no
  \<open>raw_output\<close> key, and it has \<open>raw_output\<close> exactly when it has \<open>parsed_fields\<close>: one
  of the two shapes, never both and never neither.
\<close>

theorem result_has_one_shape:
  "dict_has ''error'' (run_whois_command query timeout outcome now)
     = (\<not> dict_has ''raw_output'' (run_whois_command query timeout outcome now))
   \<and> dict_has ''raw_output'' (run_whois_command query timeout outcome now)
     = dict_has ''parsed_fields'' (run_whois_command query timeout outcome now)"
  by (cases outcome) (simp_all add: run_whois_command_def dict_has_def Let_def)

section \<open>Registration status\<close>

lemma no_match_example:
  "list_ex (\<lambda>phrase. contains phrase
      (lower (''No match for domain '' @ [CHR 0x22] @ ''NOPE123XYZ.COM'' @ [CHR 0x22] @ ''.'')))
     status_phrases"
  by code_simp

text \<open>
  C5: a domain lookup whose resolver exited cleanly with the text \<open>stdout\<close> has
  \<open>is_registered\<close> false exactly when the lower-cased text contains one of the six
  phrases, and true otherwise. The text \<open>No match for domain "NOPE123XYZ.COM".\<close> gives
  false.
\<close>

theorem is_registered_by_phrases:
  "dict_get (whois_domain domain (Exited 0 stdout stderr) now) ''is_registered'' =
     Some (PBool (\<not> (contains ''no match'' (lower stdout)
                     \<or> contains ''not found'' (lower stdout)
                     \<or> contains ''no data found'' (lower stdout)
                     \<or> contains ''status: available'' (lower stdout)
                     \<or> contains ''no matching record'' (lower stdout)
                     \<or> contains ''not registered'' (lower stdout))))
   \<and> dict_get (whois_domain domain
        (Exited 0 (''No match for domain '' @ [CHR 0x22] @ ''NOPE123XYZ.COM'' @ [CHR 0x22] @ ''.'') stderr) now)
        ''is_registered'' = Some (PBool False)"
proof (intro conjI)
  show "dict_get (whois_domain domain (Exited 0 stdout stderr) now) ''is_registered'' =
     Some (PBool (\<not> (contains ''no match'' (lower stdout)
                     \<or> contains ''not found'' (lower stdout)
                     \<or> contains ''no data found'' (lower stdout)
                     \<or> contains ''status: available'' (lower stdout)
                     \<or> contains ''no matching record'' (lower stdout)
                     \<or> contains ''not registered'' (lower stdout))))"
    by (simp add: whois_domain_ok dict_get_def status_phrases_def)
  show "dict_get (whois_domain domain
        (Exited 0 (''No match for domain '' @ [CHR 0x22] @ ''NOPE123XYZ.COM'' @ [CHR 0x22] @ ''.'') stderr) now)
        ''is_registered'' = Some (PBool False)"
    using no_match_example by (simp add: whois_domain_ok dict_get_def)
qed

text \<open>
  C10: a domain lookup whose result has no \<open>error\<close> key carries an \<open>analysis\<close> with four
  entries, \<open>registered\<close>, \<open>has_registrar\<close>, \<open>has_creation_date\<close> and \<open>has_expiry_date\<close>,
  and the value of \<open>registered\<close> is the value of the result's \<open>is_registered\<close>.
\<close>

theorem analysis_registered_entry:
  assumes "\<not> dict_has ''error'' (whois_domain domain outcome now)"
  shows "\<exists>b a. dict_get (whois_domain domain outcome now) ''is_registered'' = Some (PBool b)
     \<and> dict_get (whois_domain domain outcome now) ''analysis'' = Some (PAnalysis a)
     \<and> dict_get a ''registered'' = Some b
     \<and> map fst a = [''registered'', ''has_registrar'', ''has_creation_date'', ''has_expiry_date'']"
proof (cases "dict_has ''error'' (run_whois_command (clean_domain domain) 10 outcome now)")
  case True
  then show ?thesis using assms by (simp add: whois_domain_failed)
next
  case False
  then obtain stdout stderr where "outcome = Exited 0 stdout stderr"
    by (auto simp: run_has_error split: proc_outcome.splits)
  then show ?thesis by (simp add: whois_domain_ok dict_get_def)
qed

theorem analysis_registered_entry_witness:
  "\<not> dict_has ''error'' (whois_domain ''example.com'' (Exited 0 ''Registrar: R'' '''') ''T'')
   \<and> (\<exists>b a. dict_get (whois_domain ''example.com'' (Exited 0 ''Registrar: R'' '''') ''T'')
               ''is_registered'' = Some (PBool b)
     \<and> dict_get (whois_domain ''example.com'' (Exited 0 ''Registrar: R'' '''') ''T'')
               ''analysis'' = Some (PAnalysis a)
     \<and> dict_get a ''registered'' = Some b
     \<and> map fst a = [''registered'', ''has_registrar'', ''has_creation_date'', ''has_expiry_date''])"
proof -
  have h: "\<not> dict_has ''error'' (whois_domain ''example.com'' (Exited 0 ''Registrar: R'' '''') ''T'')"
    by (simp add: whois_domain_ok dict_has_def)
  show ?thesis using h analysis_registered_entry[OF h] by simp
qed

section \<open>The parsed fields\<close>

lemma set_dict_set: "set (dict_set k v d) \<subseteq> insert (k, v) (set d)"
  by (induction d) (auto split: if_splits)

lemma dict_get_in_set: "dict_get d k = Some v \<Longrightarrow> (k, v) \<in> set d"
  by (simp add: dict_get_def map_of_SomeD)

lemma startswith_single: "startswith (x # xs) [c] = (x = c)"
  by (simp add: startswith_def)

lemma contains_single: "contains [c] s = (c \<in> set s)"
  by (induction s) (auto simp: startswith_single)

lemma replace_single: "replace [a] [b] s = map (\<lambda>c. if c = a then b else c) s"
proof (induction s)
  case Nil
  show ?case by (simp add: replace_Nil)
next
  case (Cons x xs)
  show ?case
  proof (cases "x = a")
    case True
    then have "startswith (x # xs) [a]" by (simp add: startswith_single)
    then have "replace [a] [b] (x # xs) = [b] @ replace [a] [b] (drop (length [a]) (x # xs))"
      by (intro replace_hit) simp_all
    then show ?thesis using Cons True by simp
  next
    case False
    then have "\<not> startswith (x # xs) [a]" by (simp add: startswith_single)
    then have "replace [a] [b] (x # xs) = x # replace [a] [b] xs"
      by (intro replace_miss) simp_all
    then show ?thesis using Cons False by simp
  qed
qed

lemma lower_char_underscore: "lower_char CHR ''_'' = CHR ''_''"
  by (simp add: lower_char_def)

lemma normal_key:
  "lower (replace '' '' ''_'' (lower s)) = replace '' '' ''_'' (lower s)
   \<and> CHR '' '' \<notin> set (replace '' '' ''_'' (lower s))"
  by (auto simp: replace_single lower_def lower_char_idem lower_char_underscore)

lemma field_of_line_Some:
  assumes "field_of_line raw_line = Some (key, val)"
  shows "lower key = key \<and> CHR '' '' \<notin> set key \<and> key \<noteq> [] \<and> val \<noteq> []"
proof -
  obtain k0 where "key = replace '' '' ''_'' (lower k0)" and "key \<noteq> []" and "val \<noteq> []"
    using assms by (auto simp: field_of_line_def Let_def split: if_splits prod.splits)
  then show ?thesis using normal_key[of k0] by simp
qed

lemma field_of_line_skip:
  assumes "strip raw_line = [] \<or> startswith (strip raw_line) ''%''
           \<or> startswith (strip raw_line) ''#'' \<or> CHR '':'' \<notin> set (strip raw_line)"
  shows "field_of_line raw_line = None"
  using assms by (auto simp: field_of_line_def Let_def contains_single)

lemma good_fields_add:
  assumes "good_fields fs" and "lower k = k \<and> CHR '' '' \<notin> set k \<and> k \<noteq> [] \<and> v \<noteq> []"
  shows "good_fields (add_field fs k v)"
proof -
  have all: "\<And>x. (k, x) \<in> set fs \<Longrightarrow> nonempty_value x"
    using assms(1) by (auto simp: good_fields_def list_all_iff)
  have step: "\<And>x. nonempty_value x \<Longrightarrow> good_fields (dict_set k x fs)"
    using assms set_dict_set[of k _ fs] by (fastforce simp: good_fields_def list_all_iff)
  show ?thesis
  proof (cases "dict_get fs k")
    case None
    then show ?thesis using step[of "Single v"] assms(2) by (simp add: add_field_def)
  next
    case (Some x)
    then have nx: "nonempty_value x" using all dict_get_in_set by fastforce
    show ?thesis
    proof (cases x)
      case (Single u)
      then show ?thesis using Some nx step[of "Many [u, v]"] assms(2) by (simp add: add_field_def)
    next
      case (Many us)
      then show ?thesis using Some nx step[of "Many (us @ [v])"] assms(2) by (simp add: add_field_def)
    qed
  qed
qed

lemma good_fields_parse_line: "good_fields fs \<Longrightarrow> good_fields (parse_line fs raw_line)"
  by (auto simp: parse_line_def split: option.splits dest: field_of_line_Some intro: good_fields_add)

lemma good_fields_foldl: "good_fields fs \<Longrightarrow> good_fields (foldl parse_line fs ls)"
  by (induction ls arbitrary: fs) (auto simp: good_fields_parse_line)

lemma good_fields_parse_fields: "good_fields (parse_fields raw)"
  unfolding parse_fields_def by (rule good_fields_foldl) (simp add: good_fields_def)

text \<open>
  C6: every key of the parsed fields is its own lower-case form and has no space in it,
  and its value is not empty; a line that, once trimmed, is empty, starts with \<open>%\<close> or
  \<open>#\<close>, or has no \<open>:\<close> leaves the fields as they were.
\<close>

theorem parsed_fields_normalised:
  "((key, v) \<in> set (parse_fields raw_output) \<longrightarrow>
      lower key = key \<and> CHR '' '' \<notin> set key \<and> nonempty_value v)
   \<and> (strip raw_line = [] \<or> startswith (strip raw_line) ''%''
        \<or> startswith (strip raw_line) ''#'' \<or> CHR '':'' \<notin> set (strip raw_line)
      \<longrightarrow> parse_line parsed_fields raw_line = parsed_fields)"
  using good_fields_parse_fields[of raw_output] field_of_line_skip[of raw_line]
  by (auto simp: good_fields_def list_all_iff parse_line_def)

theorem parsed_fields_normalised_witness:
  "(''domain_name'', Single ''X'') \<in> set (parse_fields ''Domain Name: X'')
   \<and> lower ''domain_name'' = ''domain_name'' \<and> CHR '' '' \<notin> set ''domain_name''
   \<and> nonempty_value (Single ''X'')
   \<and> startswith (strip '' % a: b'') ''%''
   \<and> parse_line [(''k'', Single ''v'')] '' % a: b'' = [(''k'', Single ''v'')]"
proof -
  have h1: "(''domain_name'', Single ''X'') \<in> set (parse_fields ''Domain Name: X'')"
    by code_simp
  have h2: "startswith (strip '' % a: b'') ''%''"
    by code_simp
  show ?thesis
    using h1 h2
      parsed_fields_normalised[of "''domain_name''" "Single ''X''" "''Domain Name: X''"
        "'' % a: b''" "[(''k'', Single ''v'')]"]
    by simp
qed

section \<open>A key that occurs more than once\<close>

lemma dict_get_add_field:
  "dict_get (add_field fs k v) key =
     (if key = k then stored (dict_get fs k) [v] else dict_get fs key)"
  by (auto simp: add_field_def dict_get_dict_set split: option.splits field_value.splits)

lemma stored_append: "stored x (vs @ ws) = stored (stored x vs) ws"
  by (induction x vs rule: stored.induct) auto

lemma parse_fields_entries:
  "foldl parse_line fs ls = foldl (\<lambda>fs (k, v). add_field fs k v) fs (List.map_filter field_of_line ls)"
  by (induction ls arbitrary: fs) (auto simp: List.map_filter_simps parse_line_def split: option.splits)

lemma stored_Cons: "stored x (v # vs) = stored (stored x [v]) vs"
  using stored_append[of x "[v]" vs] by simp

lemma dict_get_foldl_add:
  "dict_get (foldl (\<lambda>fs (k, v). add_field fs k v) fs es) key =
     stored (dict_get fs key) (map snd (filter (\<lambda>e. fst e = key) es))"
proof (induction es arbitrary: fs)
  case Nil
  show ?case by simp
next
  case (Cons e es)
  obtain k v where e: "e = (k, v)" by (cases e)
  let ?vs = "map snd (filter (\<lambda>e. fst e = key) es)"
  have "dict_get (foldl (\<lambda>fs (k, v). add_field fs k v) fs (e # es)) key =
        stored (dict_get (add_field fs k v) key) ?vs"
    using Cons[of "add_field fs k v"] by (simp add: e)
  also have "\<dots> = stored (dict_get fs key) (map snd (filter (\<lambda>e. fst e = key) (e # es)))"
  proof (cases "key = k")
    case True
    then show ?thesis
      using stored_Cons[of "dict_get fs k" v ?vs] by (simp add: e dict_get_add_field)
  next
    case False
    then show ?thesis by (simp add: e dict_get_add_field)
  qed
  finally show ?case .
qed

lemma dict_get_parse_fields: "dict_get (parse_fields raw) key = stored None (values_of key raw)"
proof -
  have "dict_get [] key = (None :: field_value option)" by (simp add: dict_get_def)
  then show ?thesis
    by (simp add: parse_fields_def parse_fields_entries dict_get_foldl_add values_of_def
        entries_def)
qed

text \<open>
  C7: when the lines of the text that give the key \<open>key\<close> give it the values \<open>a\<close>, \<open>b\<close>,
  \<open>c\<close> in that order, the key holds the list \<open>[a, b, c]\<close>; when they give it the one
  value \<open>a\<close>, the key holds the plain string \<open>a\<close>.
\<close>

theorem repeated_key_values:
  "(values_of key raw_output = [a, b, c] \<longrightarrow>
      dict_get (parse_fields raw_output) key = Some (Many [a, b, c]))
   \<and> (values_of key raw_output = [a] \<longrightarrow>
      dict_get (parse_fields raw_output) key = Some (Single a))"
  by (simp add: dict_get_parse_fields)

theorem repeated_key_values_witness:
  "values_of ''ns'' (''ns: a'' @ [CHR 0x0A] @ ''NS : b'' @ [CHR 0x0A] @ ''ns:c:d'' @ [CHR 0x0A] @ ''x: y'')
     = [''a'', ''b'', ''c:d'']
   \<and> dict_get (parse_fields (''ns: a'' @ [CHR 0x0A] @ ''NS : b'' @ [CHR 0x0A] @ ''ns:c:d'' @ [CHR 0x0A] @ ''x: y''))
       ''ns'' = Some (Many [''a'', ''b'', ''c:d''])
   \<and> values_of ''x'' (''ns: a'' @ [CHR 0x0A] @ ''NS : b'' @ [CHR 0x0A] @ ''ns:c:d'' @ [CHR 0x0A] @ ''x: y'')
     = [''y'']
   \<and> dict_get (parse_fields (''ns: a'' @ [CHR 0x0A] @ ''NS : b'' @ [CHR 0x0A] @ ''ns:c:d'' @ [CHR 0x0A] @ ''x: y''))
       ''x'' = Some (Single ''y'')"
proof -
  let ?raw = "''ns: a'' @ [CHR 0x0A] @ ''NS : b'' @ [CHR 0x0A] @ ''ns:c:d'' @ [CHR 0x0A] @ ''x: y''"
  have h1: "values_of ''ns'' ?raw = [''a'', ''b'', ''c:d'']"
    by code_simp
  have h2: "values_of ''x'' ?raw = [''y'']"
    by code_simp
  show ?thesis
    using h1 h2
      repeated_key_values[of "''ns''" ?raw "''a''" "''b''" "''c:d''"]
      repeated_key_values[of "''x''" ?raw "''y''"]
    by simp
qed

section \<open>What a bulk lookup records\<close>

lemma results_collected: "results (whois_domains domains world now) = collected domains world"
  by (simp add: whois_domains_def collected_def split: prod.splits)

lemma gathered_snoc:
  "gathered (ds @ [d]) world = gathered ds world @ [lookup_single d (world (length ds))]"
  by (simp add: gathered_def enumerate_append_eq)

lemma collected_Nil: "collected [] world = []"
  by (simp add: collected_def gathered_def)

lemma collected_snoc:
  "collected (ds @ [d]) world =
     (case world (length ds) of
        Crashes e \<Rightarrow> collected ds world
      | Runs outcome t \<Rightarrow> dict_set d (whois_domain d outcome t) (collected ds world))"
  by (simp add: collected_def gathered_snoc tally_def lookup_single_def
      split: prod.splits task_env.splits)

lemma whois_domain_query:
  "dict_get (whois_domain domain outcome t) ''query'' = Some (PStr (clean_domain domain))"
proof (cases "dict_has ''error'' (run_whois_command (clean_domain domain) 10 outcome t)")
  case True
  then show ?thesis
    by (cases outcome) (simp_all add: whois_domain_failed run_whois_command_def dict_get_def Let_def)
next
  case False
  then obtain stdout stderr where "outcome = Exited 0 stdout stderr"
    by (auto simp: run_has_error split: proc_outcome.splits)
  then show ?thesis by (simp add: whois_domain_ok dict_get_def)
qed

text \<open>
  C3, as the code has it: \<open>lookup_single\<close> returns the domain string it was given, so the
  result of a task that did not crash is recorded under the input string as it stands in
  the list (when the same string stands at later positions too, the last task of them
  that did not crash is the one kept). The cleaned string is the \<open>query\<close> field of the
  result.
\<close>

theorem result_keyed_by_input:
  assumes "i < length domains" and "world i = Runs outcome t"
    and "\<forall>j. i < j \<and> j < length domains \<and> domains ! j = domains ! i \<longrightarrow> (\<exists>e. world j = Crashes e)"
  shows "dict_get (results (whois_domains domains world now)) (domains ! i) =
           Some (whois_domain (domains ! i) outcome t)
     \<and> dict_get (whois_domain (domains ! i) outcome t) ''query'' =
           Some (PStr (clean_domain (domains ! i)))"
proof -
  have "dict_get (collected domains world) (domains ! i) = Some (whois_domain (domains ! i) outcome t)"
    using assms
  proof (induction domains rule: rev_induct)
    case Nil
    then show ?case by simp
  next
    case (snoc d ds)
    show ?case
    proof (cases "i = length ds")
      case True
      then show ?thesis using snoc.prems(2) by (simp add: collected_snoc dict_get_dict_set)
    next
      case False
      then have i: "i < length ds" using snoc.prems(1) by simp
      then have nth: "(ds @ [d]) ! i = ds ! i" by (simp add: nth_append)
      have later: "\<forall>j. i < j \<and> j < length ds \<and> ds ! j = ds ! i \<longrightarrow> (\<exists>e. world j = Crashes e)"
      proof (intro allI impI)
        fix j assume j: "i < j \<and> j < length ds \<and> ds ! j = ds ! i"
        then have "i < j \<and> j < length (ds @ [d]) \<and> (ds @ [d]) ! j = (ds @ [d]) ! i"
          using i by (simp add: nth_append)
        then show "\<exists>e. world j = Crashes e" using snoc.prems(3) by blast
      qed
      have ih: "dict_get (collected ds world) (ds ! i) = Some (whois_domain (ds ! i) outcome t)"
        using snoc.IH[OF i snoc.prems(2) later] .
      have last: "d = ds ! i \<longrightarrow> (\<exists>e. world (length ds) = Crashes e)"
      proof
        assume "d = ds ! i"
        then have "i < length ds \<and> length ds < length (ds @ [d]) \<and> (ds @ [d]) ! length ds = (ds @ [d]) ! i"
          using i by (simp add: nth_append)
        then show "\<exists>e. world (length ds) = Crashes e" using snoc.prems(3) by blast
      qed
      show ?thesis
      proof (cases "world (length ds)")
        case (Crashes e)
        then show ?thesis using ih nth by (simp add: collected_snoc)
      next
        case (Runs o2 t2)
        then have "d \<noteq> ds ! i" using last by auto
        then show ?thesis using ih nth Runs by (simp add: collected_snoc dict_get_dict_set)
      qed
    qed
  qed
  then show ?thesis by (simp add: results_collected whois_domain_query)
qed

theorem result_keyed_by_input_witness:
  "(0::nat) < length [''A.COM'', ''A.COM'']
   \<and> dict_get (results (whois_domains [''A.COM'', ''A.COM'']
        (\<lambda>i. if i = 0 then Runs (Exited 0 ''Registrar: R'' []) ''T'' else Crashes ''boom'') ''N''))
        ([''A.COM'', ''A.COM''] ! 0) =
       Some (whois_domain ([''A.COM'', ''A.COM''] ! 0) (Exited 0 ''Registrar: R'' []) ''T'')
   \<and> dict_get (whois_domain ([''A.COM'', ''A.COM''] ! 0) (Exited 0 ''Registrar: R'' []) ''T'') ''query'' =
       Some (PStr (clean_domain ([''A.COM'', ''A.COM''] ! 0)))"
proof -
  let ?world = "\<lambda>i::nat. if i = 0 then Runs (Exited 0 ''Registrar: R'' []) ''T'' else Crashes ''boom''"
  have h1: "(0::nat) < length [''A.COM'', ''A.COM'']" by simp
  have h2: "?world 0 = Runs (Exited 0 ''Registrar: R'' []) ''T''" by simp
  have h3: "\<forall>j. 0 < j \<and> j < length [''A.COM'', ''A.COM''] \<and> [''A.COM'', ''A.COM''] ! j = [''A.COM'', ''A.COM''] ! 0
              \<longrightarrow> (\<exists>e. ?world j = Crashes e)"
    by simp
  show ?thesis
    using h1 result_keyed_by_input[of 0 "[''A.COM'', ''A.COM'']" ?world "Exited 0 ''Registrar: R'' []" "''T''" "''N''",
        OF h1 h2 h3]
    by blast
qed

text \<open>
  C3, as the claim states it, fails: the lookup of \<open>A.COM\<close> is recorded under \<open>A.COM\<close>,
  and nothing is recorded under the cleaned string \<open>a.com\<close>.
\<close>

theorem result_not_keyed_by_cleaned:
  "clean_domain ''A.COM'' = ''a.com''
   \<and> map fst (results (whois_domains [''A.COM''] (\<lambda>i. Runs (Exited 0 ''Registrar: R'' '''') ''T'') ''N'')) = [''A.COM'']
   \<and> dict_get (results (whois_domains [''A.COM''] (\<lambda>i. Runs (Exited 0 ''Registrar: R'' '''') ''T'') ''N'')) ''a.com'' = None"
  by code_simp

lemma whois_domains_three:
  assumes "world 0 = Runs oa ta" and "world 1 = Crashes e" and "world 2 = Runs oc tc"
  shows "whois_domains [a, b, c] world now =
     (let ra = whois_domain a oa ta; rc = whois_domain c oc tc;
          reg = (if is_registered_set ra then 1 else 0) + (if is_registered_set rc then 1 else 0);
          err = (if dict_has ''error'' ra then 1 else 0) + 1 + (if dict_has ''error'' rc then 1 else 0)
      in \<lparr> results = dict_set c rc [(a, ra)],
           summary = \<lparr> total_domains = 3, registered_domains = reg,
                       available_domains = 3 - reg - err, errors = err, timestamp = now \<rparr> \<rparr>)"
proof -
  have w: "world (Suc 0) = Crashes e" "world (Suc (Suc 0)) = Runs oc tc"
    using assms by (simp_all add: numeral_2_eq_2)
  show ?thesis
    by (simp add: whois_domains_def gathered_def tally_def lookup_single_def assms(1) w Let_def)
qed

text \<open>
  C4: in the lookup of \<open>a.com\<close>, \<open>b.com\<close>, \<open>c.com\<close> where the task of \<open>b.com\<close> raises
  and the two other lookups return results without an \<open>error\<close> key, \<open>results\<close> holds
  \<open>a.com\<close> and \<open>c.com\<close> only, each with the result its own lookup gives, \<open>errors\<close> is
  1 and \<open>total_domains\<close> is 3.
\<close>

theorem one_crash_among_three:
  assumes "world 0 = Runs oa ta" and "world 1 = Crashes e" and "world 2 = Runs oc tc"
    and "\<not> dict_has ''error'' (whois_domain ''a.com'' oa ta)"
    and "\<not> dict_has ''error'' (whois_domain ''c.com'' oc tc)"
  shows "results (whois_domains [''a.com'', ''b.com'', ''c.com''] world now) =
           [(''a.com'', whois_domain ''a.com'' oa ta), (''c.com'', whois_domain ''c.com'' oc tc)]
     \<and> errors (summary (whois_domains [''a.com'', ''b.com'', ''c.com''] world now)) = 1
     \<and> total_domains (summary (whois_domains [''a.com'', ''b.com'', ''c.com''] world now)) = 3"
  using assms(4,5) by (simp add: whois_domains_three[OF assms(1,2,3)] Let_def)

theorem one_crash_among_three_witness:
  "results (whois_domains [''a.com'', ''b.com'', ''c.com'']
      (\<lambda>i. if i = 1 then Crashes ''boom'' else Runs (Exited 0 ''Registrar: R'' []) ''T'') ''N'') =
     [(''a.com'', whois_domain ''a.com'' (Exited 0 ''Registrar: R'' []) ''T''),
      (''c.com'', whois_domain ''c.com'' (Exited 0 ''Registrar: R'' []) ''T'')]
   \<and> errors (summary (whois_domains [''a.com'', ''b.com'', ''c.com'']
      (\<lambda>i. if i = 1 then Crashes ''boom'' else Runs (Exited 0 ''Registrar: R'' []) ''T'') ''N'')) = 1
   \<and> total_domains (summary (whois_domains [''a.com'', ''b.com'', ''c.com'']
      (\<lambda>i. if i = 1 then Crashes ''boom'' else Runs (Exited 0 ''Registrar: R'' []) ''T'') ''N'')) = 3"
proof -
  let ?world = "\<lambda>i::nat. if i = 1 then Crashes ''boom'' else Runs (Exited 0 ''Registrar: R'' []) ''T''"
  have w0: "?world 0 = Runs (Exited 0 ''Registrar: R'' []) ''T''" by simp
  have w1: "?world 1 = Crashes ''boom''" by simp
  have w2: "?world 2 = Runs (Exited 0 ''Registrar: R'' []) ''T''" by simp
  have ha: "\<not> dict_has ''error'' (whois_domain ''a.com'' (Exited 0 ''Registrar: R'' []) ''T'')"
    by (simp add: whois_domain_ok dict_has_def)
  have hc: "\<not> dict_has ''error'' (whois_domain ''c.com'' (Exited 0 ''Registrar: R'' []) ''T'')"
    by (simp add: whois_domain_ok dict_has_def)
  show ?thesis
    using one_crash_among_three[of ?world "Exited 0 ''Registrar: R'' []" "''T''" "''boom''"
        "Exited 0 ''Registrar: R'' []" "''T''" "''N''", OF w0 w1 w2 ha hc]
    by blast
qed

end
